theory Spec2Isabelle
  imports Complex_Main
begin

section \<open>Exact decimals: the \<open>decimal.Decimal\<close> values that Money stores\<close>

text \<open>
  \<open>moneyed/classes.py\<close> keeps every amount as a \<open>decimal.Decimal\<close> and computes with the
  operators of that class under the default context (\<open>prec = 28\<close>,
  \<open>rounding = ROUND_HALF_EVEN\<close>, \<open>Emin = -999999\<close>, \<open>Emax = 999999\<close>, with
  \<open>InvalidOperation\<close> and \<open>DivisionByZero\<close> trapped, that is, raised).

  A finite \<open>Decimal\<close> is a sign, a coefficient and an exponent (\<open>_sign\<close>, \<open>_int\<close>,
  \<open>_exp\<close>): its value is \<open>(-1)^sign * coefficient * 10^exponent\<close>. The operations below
  follow the decimal module: the result of \<open>+\<close>, \<open>*\<close>, \<open>/\<close> and unary \<open>-\<close> is computed
  exactly and then rounded to 28 significant digits (\<open>_fix\<close>), \<open>quantize\<close> rounds to a
  given exponent and refuses results of more than 28 digits, and comparisons compare
  values.

  Scope of the model: amounts are finite decimals (\<open>NaN\<close> and \<open>Infinity\<close> are not
  represented), and the arithmetic operators take the exponent as an unbounded integer
  (the \<open>Overflow\<close> and \<open>Underflow\<close> conditions at exponents beyond \<open>999999\<close> are not
  represented). \<open>quantize\<close> checks the exponent range explicitly, and those checks are
  kept. Binary floats are not represented either.
\<close>

datatype decimal = Decimal (d_sign: bool) (d_int: nat) (d_exp: int)

definition prec :: nat where
  "prec = 28"

definition Emax :: int where
  "Emax = 999999"

definition Emin :: int where
  "Emin = - 999999"

definition Etiny :: int where
  "Etiny = Emin - int prec + 1"

text \<open>\<open>len(str(n))\<close>: the number of decimal digits of a coefficient; \<open>0\<close> has one digit.\<close>

fun ndigits :: "nat \<Rightarrow> nat" where
  "ndigits n = (if n < 10 then 1 else Suc (ndigits (n div 10)))"

declare ndigits.simps [simp del]

text \<open>
  \<open>ROUND_HALF_EVEN\<close> on a coefficient: drop the last \<open>k\<close> digits of \<open>c\<close>; round up when the
  dropped part is more than half a unit, or exactly half and the kept part is odd.
\<close>

definition round_half_even :: "nat \<Rightarrow> nat \<Rightarrow> nat" where
  "round_half_even c k =
     (if k = 0 then c
      else let q = c div 10 ^ k; r = c mod 10 ^ k; h = 5 * 10 ^ (k - 1)
           in if h < r \<or> (r = h \<and> odd q) then q + 1 else q)"


text \<open>The signed coefficient of \<open>d\<close> written at the exponent \<open>e \<le> d_exp d\<close>.\<close>

definition scaled :: "decimal \<Rightarrow> int \<Rightarrow> int" where
  "scaled d e = (if d_sign d then - 1 else 1) * int (d_int d) * 10 ^ nat (d_exp d - e)"

text \<open>Comparisons (\<open>Decimal.__eq__\<close>, \<open>__lt__\<close>, \<open>__gt__\<close>, \<open>__ge__\<close>) are by value.\<close>

definition dec_eq :: "decimal \<Rightarrow> decimal \<Rightarrow> bool" where
  "dec_eq a b = (let e = min (d_exp a) (d_exp b) in scaled a e = scaled b e)"

definition dec_lt :: "decimal \<Rightarrow> decimal \<Rightarrow> bool" where
  "dec_lt a b = (let e = min (d_exp a) (d_exp b) in scaled a e < scaled b e)"

definition dec_gt :: "decimal \<Rightarrow> decimal \<Rightarrow> bool" where
  "dec_gt a b = (let e = min (d_exp a) (d_exp b) in scaled b e < scaled a e)"

definition dec_ge :: "decimal \<Rightarrow> decimal \<Rightarrow> bool" where
  "dec_ge a b = (let e = min (d_exp a) (d_exp b) in scaled b e \<le> scaled a e)"




text \<open>
  Python exceptions are values. Both \<open>CurrencyMismatch\<close> and \<open>InvalidOperand\<close> of the
  specification are a \<open>TypeError\<close> in the code, told apart by the message, which is kept.
  \<open>MoneyComparisonError\<close> (a subclass of \<open>TypeError\<close>) stores the operand it was raised
  for in its field \<open>other\<close>; the type of operands is the parameter \<open>'v\<close>.
  \<open>CurrencyDoesNotExist\<close> is built from one argument, the \<open>code\<close> that goes into its
  message (\<open>None\<close> or a string). \<open>InvalidOperation\<close> and \<open>DivisionByZero\<close> are the
  trapped signals of the decimal module.
\<close>

datatype 'v error =
    TypeError string
  | MoneyComparisonError 'v
  | CurrencyDoesNotExist "string option"
  | InvalidOperation
  | DivisionByZero




text \<open>
  \<open>Decimal._rescale\<close>: the coefficient of \<open>d\<close> at the exponent \<open>e\<close>, padded with zeros
  when \<open>e\<close> is below the exponent of \<open>d\<close> and rounded half-even when it is above.
\<close>

definition rescale :: "decimal \<Rightarrow> int \<Rightarrow> decimal" where
  "rescale d e =
     (if d_int d = 0 then Decimal (d_sign d) 0 e
      else if e \<le> d_exp d then Decimal (d_sign d) (d_int d * 10 ^ nat (d_exp d - e)) e
      else Decimal (d_sign d) (round_half_even (d_int d) (nat (e - d_exp d))) e)"

text \<open>\<open>Decimal.adjusted()\<close>: the exponent of the most significant digit.\<close>

definition adjusted :: "decimal \<Rightarrow> int" where
  "adjusted d = d_exp d + int (ndigits (d_int d)) - 1"

text \<open>
  \<open>Decimal.quantize(exp)\<close>, where only the exponent \<open>e\<close> of the argument matters: every
  refusal is an \<open>InvalidOperation\<close> (target exponent out of bounds, exponent of the
  result too large, result of more than \<open>prec\<close> digits). The final \<open>_fix\<close> of the library
  leaves a result that passed these checks unchanged.
\<close>

definition quantize :: "decimal \<Rightarrow> int \<Rightarrow> 'v error + decimal" where
  "quantize d e =
     (if \<not> (Etiny \<le> e \<and> e \<le> Emax) then Inl InvalidOperation
      else if d_int d = 0 then Inr (Decimal (d_sign d) 0 e)
      else if Emax < adjusted d then Inl InvalidOperation
      else if int prec < adjusted d - e + 1 then Inl InvalidOperation
      else let ans = rescale d e in
        if Emax < adjusted ans then Inl InvalidOperation
        else if prec < ndigits (d_int ans) then Inl InvalidOperation
        else Inr ans)"

text \<open>
  \<open>Decimal.__h_\<close> (Python 3): the hash of the value as a number modulo the prime
  \<open>2^61 - 1\<close>, with \<open>10^(-1)\<close> taken as the modular inverse of 10, negated for a negative
  value, and \<open>-1\<close> replaced by \<open>-2\<close>.
\<close>

definition PyHASH_MODULUS :: int where
  "PyHASH_MODULUS = 2 ^ 61 - 1"

definition PyHASH_10INV :: int where
  "PyHASH_10INV = 2075258708292324556"

definition exp_hash :: "int \<Rightarrow> int" where
  "exp_hash e =
     (if 0 \<le> e then 10 ^ nat e mod PyHASH_MODULUS
      else PyHASH_10INV ^ nat (- e) mod PyHASH_MODULUS)"

definition dec_hash :: "decimal \<Rightarrow> int" where
  "dec_hash d =
     (let h = int (d_int d) * exp_hash (d_exp d) mod PyHASH_MODULUS;
          ans = (if dec_ge d (Decimal False 0 0) then h else - h)
      in if ans = - 1 then - 2 else ans)"

section \<open>Currency and Money\<close>

text \<open>
  \<open>class Currency\<close>: \<open>code\<close> and \<open>numeric\<close> are the stored attributes (\<open>numeric\<close> is a string
  or \<open>None\<close>; the table passes \<open>None\<close> for entries without an ISO number). \<open>name\<close> and
  \<open>countries\<close> are looked up lazily in the babel package and take no part in identity,
  hashing or lookup, so they are left out. \<open>Currency.__eq__\<close> compares the codes.
\<close>

record currency =
  code :: string
  numeric :: "string option"

definition currency_eq :: "currency \<Rightarrow> currency \<Rightarrow> bool" where
  "currency_eq a b = (code a = code b)"

text \<open>\<open>class Money\<close>: an amount and a currency.\<close>

record money =
  amount :: decimal
  currency :: currency

text \<open>
  The operands that reach the operators of Money: Python ints, Decimals, \<open>None\<close> (standing
  for an object that is neither a number nor a Money) and Money values.
\<close>

datatype pyval = PInt int | PDec decimal | PNone | PMoney money

fun is_Money :: "pyval \<Rightarrow> bool" where
  "is_Money (PMoney m) = True"
| "is_Money v = False"

text \<open>
  \<open>force_decimal\<close>, and the same conversion written inline in \<open>Money.__init__\<close> and
  \<open>Money.__rmod__\<close>: a Decimal is kept (in \<open>__rmod__\<close> it goes through \<open>Decimal(str(d))\<close>,
  which gives \<open>d\<close> back), any other value goes through \<open>Decimal(str(amount))\<close>: exact for
  an int, a conversion syntax error (\<open>InvalidOperation\<close>) for \<open>'None'\<close> and for the display
  text of a Money.
\<close>

fun force_decimal :: "pyval \<Rightarrow> pyval error + decimal" where
  "force_decimal (PDec d) = Inr d"
| "force_decimal (PInt n) = Inr (Decimal (n < 0) (nat \<bar>n\<bar>) 0)"
| "force_decimal PNone = Inl InvalidOperation"
| "force_decimal (PMoney m) = Inl InvalidOperation"


text \<open>\<open>Money.__eq__\<close> and \<open>Money.__ne__\<close>.\<close>

fun money_eq :: "money \<Rightarrow> pyval \<Rightarrow> bool" where
  "money_eq self (PMoney other) =
     (dec_eq (amount self) (amount other) \<and> currency_eq (currency self) (currency other))"
| "money_eq self other = False"

definition money_ne :: "money \<Rightarrow> pyval \<Rightarrow> bool" where
  "money_ne self other = (let result = money_eq self other in \<not> result)"








text \<open>
  \<open>Money.round\<close>: \<open>ndigits\<close> is \<open>None\<close> or an int (omitted, it is 0); the argument of
  \<open>quantize\<close> is \<open>Decimal('1e' + str(-ndigits))\<close>, of exponent \<open>-ndigits\<close>.
\<close>

definition money_round :: "money \<Rightarrow> int option \<Rightarrow> pyval error + money" where
  "money_round self nd =
     (let nd = (case nd of None \<Rightarrow> 0 | Some n \<Rightarrow> n) in
      case quantize (amount self) (- nd) of
        Inl e \<Rightarrow> Inl e
      | Inr q \<Rightarrow> Inr \<lparr>amount = q, currency = currency self\<rparr>)"


text \<open>\<open>Money.__lt__\<close>, \<open>__gt__\<close>, \<open>__le__\<close> and \<open>__ge__\<close>.\<close>

definition money_lt :: "money \<Rightarrow> pyval \<Rightarrow> pyval error + bool" where
  "money_lt self other =
     (case other of
        PMoney m \<Rightarrow>
          if currency_eq (currency self) (currency m)
          then Inr (dec_lt (amount self) (amount m))
          else Inl (TypeError ''Cannot compare Money with different currencies.'')
      | _ \<Rightarrow> Inl (MoneyComparisonError other))"

definition money_gt :: "money \<Rightarrow> pyval \<Rightarrow> pyval error + bool" where
  "money_gt self other =
     (case other of
        PMoney m \<Rightarrow>
          if currency_eq (currency self) (currency m)
          then Inr (dec_gt (amount self) (amount m))
          else Inl (TypeError ''Cannot compare Money with different currencies.'')
      | _ \<Rightarrow> Inl (MoneyComparisonError other))"

definition money_le :: "money \<Rightarrow> pyval \<Rightarrow> pyval error + bool" where
  "money_le self other =
     (case money_lt self other of
        Inl e \<Rightarrow> Inl e
      | Inr b \<Rightarrow> Inr (b \<or> money_eq self other))"

definition money_ge :: "money \<Rightarrow> pyval \<Rightarrow> pyval error + bool" where
  "money_ge self other =
     (case money_gt self other of
        Inl e \<Rightarrow> Inl e
      | Inr b \<Rightarrow> Inr (b \<or> money_eq self other))"

section \<open>The currency registry\<close>

text \<open>
  The two module-level dictionaries \<open>CURRENCIES\<close> (by code) and \<open>CURRENCIES_BY_ISO\<close> (by
  numeric, a string or \<open>None\<close>) are the state of the registry.
\<close>

record registry =
  CURRENCIES :: "string \<rightharpoonup> currency"
  CURRENCIES_BY_ISO :: "string option \<rightharpoonup> currency"

definition empty_registry :: registry where
  "empty_registry = \<lparr>CURRENCIES = Map.empty, CURRENCIES_BY_ISO = Map.empty\<rparr>"

text \<open>
  \<open>add_currency\<close>: stores the new Currency under its code and under its numeric and
  returns it, with the updated registry.
\<close>

definition add_currency :: "string \<Rightarrow> string option \<Rightarrow> registry \<Rightarrow> currency \<times> registry" where
  "add_currency c n reg =
     (let cur = \<lparr>code = c, numeric = n\<rparr>
      in (cur, \<lparr>CURRENCIES = (CURRENCIES reg)(c \<mapsto> cur),
                CURRENCIES_BY_ISO = (CURRENCIES_BY_ISO reg)(n \<mapsto> cur)\<rparr>))"

text \<open>
  \<open>get_currency(code=None, iso=None)\<close>: a truthy \<open>iso\<close> (a non-empty string) is looked up
  in \<open>CURRENCIES_BY_ISO\<close>, otherwise \<open>code\<close> is looked up in \<open>CURRENCIES\<close>, whose keys are
  strings; a \<open>KeyError\<close> of either lookup becomes \<open>CurrencyDoesNotExist(code)\<close>.
\<close>

definition get_currency :: "registry \<Rightarrow> string option \<Rightarrow> string option \<Rightarrow> pyval error + currency" where
  "get_currency reg c iso' =
     (if iso' \<noteq> None \<and> iso' \<noteq> Some []
      then (case CURRENCIES_BY_ISO reg iso' of
              Some cur \<Rightarrow> Inr cur
            | None \<Rightarrow> Inl (CurrencyDoesNotExist c))
      else (case c of
              None \<Rightarrow> Inl (CurrencyDoesNotExist c)
            | Some k \<Rightarrow>
                (case CURRENCIES reg k of
                   Some cur \<Rightarrow> Inr cur
                 | None \<Rightarrow> Inl (CurrencyDoesNotExist c))))"

text \<open>
  The registrations that the module runs when it is loaded, in the order of the source:
  the default currency \<open>XYZ\<close>, the ISO 4217 currencies, the obsolete ones.
\<close>

definition currency_table :: "(string \<times> string option) list" where
  "currency_table =
    [
     (''XYZ'', Some ''999''), (''AED'', Some ''784''), (''AFN'', Some ''971''), (''ALL'', Some ''008''),
     (''AMD'', Some ''051''), (''ANG'', Some ''532''), (''AOA'', Some ''973''), (''ARS'', Some ''032''),
     (''AUD'', Some ''036''), (''AWG'', Some ''533''), (''AZN'', Some ''944''), (''BAM'', Some ''977''),
     (''BBD'', Some ''052''), (''BDT'', Some ''050''), (''BGN'', Some ''975''), (''BHD'', Some ''048''),
     (''BIF'', Some ''108''), (''BMD'', Some ''060''), (''BND'', Some ''096''), (''BOB'', Some ''068''),
     (''BOV'', Some ''984''), (''BRL'', Some ''986''), (''BSD'', Some ''044''), (''BTN'', Some ''064''),
     (''BWP'', Some ''072''), (''BYN'', Some ''933''), (''BZD'', Some ''084''), (''CAD'', Some ''124''),
     (''CDF'', Some ''976''), (''CHE'', Some ''947''), (''CHF'', Some ''756''), (''CHW'', Some ''948''),
     (''CLF'', Some ''990''), (''CLP'', Some ''152''), (''CNY'', Some ''156''), (''COP'', Some ''170''),
     (''COU'', Some ''970''), (''CRC'', Some ''188''), (''CUC'', Some ''931''), (''CUP'', Some ''192''),
     (''CVE'', Some ''132''), (''CZK'', Some ''203''), (''DJF'', Some ''262''), (''DKK'', Some ''208''),
     (''DOP'', Some ''214''), (''DZD'', Some ''012''), (''EGP'', Some ''818''), (''ERN'', Some ''232''),
     (''ETB'', Some ''230''), (''EUR'', Some ''978''), (''FJD'', Some ''242''), (''FKP'', Some ''238''),
     (''GBP'', Some ''826''), (''GEL'', Some ''981''), (''GHS'', Some ''936''), (''GIP'', Some ''292''),
     (''GMD'', Some ''270''), (''GNF'', Some ''324''), (''GTQ'', Some ''320''), (''GYD'', Some ''328''),
     (''HKD'', Some ''344''), (''HNL'', Some ''340''), (''HRK'', Some ''191''), (''HTG'', Some ''332''),
     (''HUF'', Some ''348''), (''IDR'', Some ''360''), (''ILS'', Some ''376''), (''IMP'', Some ''Nil''),
     (''INR'', Some ''356''), (''IQD'', Some ''368''), (''IRR'', Some ''364''), (''ISK'', Some ''352''),
     (''JMD'', Some ''388''), (''JOD'', Some ''400''), (''JPY'', Some ''392''), (''KES'', Some ''404''),
     (''KGS'', Some ''417''), (''KHR'', Some ''116''), (''KMF'', Some ''174''), (''KPW'', Some ''408''),
     (''KRW'', Some ''410''), (''KWD'', Some ''414''), (''KYD'', Some ''136''), (''KZT'', Some ''398''),
     (''LAK'', Some ''418''), (''LBP'', Some ''422''), (''LKR'', Some ''144''), (''LRD'', Some ''430''),
     (''LSL'', Some ''426''), (''LYD'', Some ''434''), (''MAD'', Some ''504''), (''MDL'', Some ''498''),
     (''MGA'', Some ''969''), (''MKD'', Some ''807''), (''MMK'', Some ''104''), (''MNT'', Some ''496''),
     (''MOP'', Some ''446''), (''MUR'', Some ''480''), (''MVR'', Some ''462''), (''MWK'', Some ''454''),
     (''MXN'', Some ''484''), (''MXV'', Some ''979''), (''MYR'', Some ''458''), (''MZN'', Some ''943''),
     (''NAD'', Some ''516''), (''NGN'', Some ''566''), (''NIO'', Some ''558''), (''NOK'', Some ''578''),
     (''NPR'', Some ''524''), (''NZD'', Some ''554''), (''OMR'', Some ''512''), (''PAB'', Some ''590''),
     (''PEN'', Some ''604''), (''PGK'', Some ''598''), (''PHP'', Some ''608''), (''PKR'', Some ''586''),
     (''PLN'', Some ''985''), (''PYG'', Some ''600''), (''QAR'', Some ''634''), (''RON'', Some ''946''),
     (''RSD'', Some ''941''), (''RUB'', Some ''643''), (''RWF'', Some ''646''), (''SAR'', Some ''682''),
     (''SBD'', Some ''090''), (''SCR'', Some ''690''), (''SDG'', Some ''938''), (''SEK'', Some ''752''),
     (''SGD'', Some ''702''), (''SHP'', Some ''654''), (''SLL'', Some ''694''), (''SOS'', Some ''706''),
     (''SRD'', Some ''968''), (''SSP'', Some ''728''), (''SVC'', Some ''222''), (''SYP'', Some ''760''),
     (''SZL'', Some ''748''), (''THB'', Some ''764''), (''TJS'', Some ''972''), (''TMT'', Some ''934''),
     (''TND'', Some ''788''), (''TOP'', Some ''776''), (''TRY'', Some ''949''), (''TTD'', Some ''780''),
     (''TVD'', Some ''Nil''), (''TWD'', Some ''901''), (''TZS'', Some ''834''), (''UAH'', Some ''980''),
     (''UGX'', Some ''800''), (''USD'', Some ''840''), (''USN'', Some ''997''), (''UYI'', Some ''940''),
     (''UYU'', Some ''858''), (''UZS'', Some ''860''), (''VND'', Some ''704''), (''VUV'', Some ''548''),
     (''WST'', Some ''882''), (''XAF'', Some ''950''), (''XAG'', Some ''961''), (''XAU'', Some ''959''),
     (''XBA'', Some ''955''), (''XBB'', Some ''956''), (''XBC'', Some ''957''), (''XBD'', Some ''958''),
     (''XCD'', Some ''951''), (''XDR'', Some ''960''), (''XFO'', Some ''Nil''), (''XFU'', Some ''Nil''),
     (''XOF'', Some ''952''), (''XPD'', Some ''964''), (''XPF'', Some ''953''), (''XPT'', Some ''962''),
     (''XSU'', Some ''994''), (''XTS'', Some ''963''), (''XUA'', Some ''965''), (''XXX'', Some ''999''),
     (''XXX'', Some ''999''), (''YER'', Some ''886''), (''ZAR'', Some ''710''), (''ZMW'', Some ''967''),
     (''ZWN'', Some ''942''), (''ADP'', Some ''020''), (''AFA'', Some ''004''), (''ALK'', Some ''008''),
     (''AON'', Some ''024''), (''AOR'', Some ''982''), (''ARA'', Some ''032''), (''ARP'', Some ''032''),
     (''ATS'', Some ''040''), (''AZM'', Some ''031''), (''BAD'', Some ''070''), (''BEF'', Some ''056''),
     (''BGL'', Some ''100''), (''BRC'', Some ''076''), (''BRE'', Some ''076''), (''BRN'', Some ''076''),
     (''BRR'', Some ''987''), (''BYR'', Some ''974''), (''CLE'', Some ''152''), (''CSD'', Some ''891''),
     (''CSK'', Some ''200''), (''CYP'', Some ''196''), (''DDM'', Some ''278''), (''DEM'', Some ''276''),
     (''ECS'', Some ''218''), (''ECV'', Some ''983''), (''EEK'', Some ''233''), (''ESA'', Some ''996''),
     (''ESB'', Some ''995''), (''ESP'', Some ''020''), (''FIM'', Some ''246''), (''FRF'', Some ''250''),
     (''GHC'', Some ''288''), (''GRD'', Some ''300''), (''GWP'', Some ''624''), (''HRD'', Some ''191''),
     (''IEP'', Some ''372''), (''ITL'', Some ''380''), (''LTL'', Some ''440''), (''LUF'', Some ''442''),
     (''LVL'', Some ''428''), (''MGF'', Some ''450''), (''MLF'', Some ''466''), (''MRO'', Some ''478''),
     (''MTL'', Some ''470''), (''MZM'', Some ''508''), (''NLG'', Some ''528''), (''PEI'', Some ''604''),
     (''PLZ'', Some ''616''), (''PTE'', Some ''620''), (''ROL'', Some ''642''), (''RUR'', Some ''810''),
     (''SDD'', Some ''736''), (''SIT'', Some ''705''), (''SKK'', Some ''703''), (''SRG'', Some ''740''),
     (''STD'', Some ''678''), (''TJR'', Some ''762''), (''TMM'', Some ''795''), (''TPE'', Some ''626''),
     (''TRL'', Some ''792''), (''UAK'', Some ''804''), (''USS'', Some ''998''), (''VEB'', Some ''862''),
     (''VEF'', Some ''937''), (''VNN'', Some ''704''), (''XEU'', Some ''954''), (''YDD'', Some ''710''),
     (''YUM'', Some ''891''), (''YUN'', Some ''890''), (''ZAL'', Some ''991''), (''ZMK'', Some ''894''),
     (''ZRN'', Some ''180''), (''ZRZ'', Some ''180''), (''ZWD'', Some ''716''), (''ZWL'', Some ''932''),
     (''ZWR'', Some ''935''), (''AOK'', None), (''ARL'', None), (''ARM'', None),
     (''BAN'', None), (''BEC'', None), (''BEL'', None), (''BGM'', None),
     (''BGO'', None), (''BOL'', None), (''BOP'', None), (''BRB'', None),
     (''BRZ'', None), (''BUK'', None), (''BYB'', None), (''CNH'', None),
     (''CNX'', None), (''GEK'', None), (''GNS'', None), (''GQE'', None),
     (''GWE'', None), (''ILP'', None), (''ILR'', None), (''ISJ'', None),
     (''KRH'', None), (''KRO'', None), (''LTT'', None), (''LUC'', None),
     (''LUL'', None), (''LVR'', None), (''MAF'', None), (''MCF'', None),
     (''MDC'', None), (''MKN'', None), (''MRU'', None), (''MTP'', None),
     (''MVP'', None), (''MXP'', None), (''MZE'', None), (''NIC'', None),
     (''PES'', None), (''RHD'', None), (''SDP'', None), (''STN'', None),
     (''SUR'', None), (''UGS'', None), (''UYP'', None), (''UYW'', None),
     (''VES'', None), (''XRE'', None), (''YUD'', None), (''YUR'', None)
    ]"

text \<open>A registry is what a sequence of registrations leaves behind.\<close>

definition register_all :: "(string \<times> string option) list \<Rightarrow> registry \<Rightarrow> registry" where
  "register_all tbl reg = foldl (\<lambda>r (c, n). snd (add_currency c n r)) reg tbl"

definition the_registry :: registry where
  "the_registry = register_all currency_table empty_registry"

text \<open>The module constants \<open>USD\<close> and \<open>EUR\<close> are the values of their registrations.\<close>

definition USD :: currency where
  "USD = \<lparr>code = ''USD'', numeric = Some ''840''\<rparr>"

definition EUR :: currency where
  "EUR = \<lparr>code = ''EUR'', numeric = Some ''978''\<rparr>"

text \<open>
  \<open>str.upper\<close> on the ASCII letters, which is all that a currency code holds.
\<close>

definition upper_char :: "char \<Rightarrow> char" where
  "upper_char ch =
     (case map_of (zip ''abcdefghijklmnopqrstuvwxyz'' ''ABCDEFGHIJKLMNOPQRSTUVWXYZ'') ch of
        Some u \<Rightarrow> u
      | None \<Rightarrow> ch)"

definition upper :: "string \<Rightarrow> string" where
  "upper s = map upper_char s"

text \<open>
  \<open>Money.__init__(amount, currency)\<close>: an amount that is not a Decimal is converted, a
  currency that is not a Currency is taken as a code, upper-cased and looked up.
\<close>

datatype currency_arg = CurrencyObj currency | CurrencyCode string

definition Money_init :: "registry \<Rightarrow> pyval \<Rightarrow> currency_arg \<Rightarrow> pyval error + money" where
  "Money_init reg amt cur =
     (case force_decimal amt of
        Inl e \<Rightarrow> Inl e
      | Inr d \<Rightarrow>
          (case cur of
             CurrencyObj c \<Rightarrow> Inr \<lparr>amount = d, currency = c\<rparr>
           | CurrencyCode s \<Rightarrow>
               (case get_currency reg (Some (upper s)) None of
                  Inl e \<Rightarrow> Inl e
                | Inr c \<Rightarrow> Inr \<lparr>amount = d, currency = c\<rparr>)))"

text \<open>
  \<open>Currency.__hash__\<close> is the hash of the code and \<open>Money.__hash__\<close> the hash of the pair
  \<open>(amount, currency)\<close>. The hash of a string is salted per process and the hash of a
  tuple is a function of the hashes of its items: either is a parameter.
\<close>

definition currency_hash :: "(string \<Rightarrow> int) \<Rightarrow> currency \<Rightarrow> int" where
  "currency_hash hash_str c = hash_str (code c)"

definition money_hash :: "(string \<Rightarrow> int) \<Rightarrow> (int list \<Rightarrow> int) \<Rightarrow> money \<Rightarrow> int" where
  "money_hash hash_str hash_tuple self =
     hash_tuple [dec_hash (amount self), currency_hash hash_str (currency self)]"

section \<open>Notions of the specification\<close>

text \<open>
  The number that a decimal stands for, as a rational: the specification speaks of
  amounts as numbers, the code of their representations.
\<close>

definition dec_value :: "decimal \<Rightarrow> rat" where
  "dec_value d = (if d_sign d then - 1 else 1) * of_nat (d_int d) * 10 powi (d_exp d)"


text \<open>
  The entry that a sequence of registrations leaves under a key is the last one
  registered with that key.
\<close>

fun last_by_code :: "string \<Rightarrow> (string \<times> string option) list \<Rightarrow> currency option \<Rightarrow> currency option" where
  "last_by_code k [] acc = acc"
| "last_by_code k ((c, n) # tbl) acc =
     last_by_code k tbl (if c = k then Some \<lparr>code = c, numeric = n\<rparr> else acc)"

fun last_by_numeric :: "string option \<Rightarrow> (string \<times> string option) list \<Rightarrow> currency option \<Rightarrow> currency option" where
  "last_by_numeric k [] acc = acc"
| "last_by_numeric k ((c, n) # tbl) acc =
     last_by_numeric k tbl (if n = k then Some \<lparr>code = c, numeric = n\<rparr> else acc)"


section \<open>Decimals and the numbers they stand for\<close>

lemma dec_value_scaled:
  assumes "e \<le> d_exp d"
  shows "dec_value d = of_int (scaled d e) * 10 powi e"
proof -
  have "(10::rat) powi (d_exp d) = 10 powi ((d_exp d - e) + e)"
    by simp
  also have "\<dots> = 10 powi (d_exp d - e) * 10 powi e"
    by (rule power_int_add) simp
  also have "(10::rat) powi (d_exp d - e) = 10 ^ nat (d_exp d - e)"
    using assms by (simp add: power_int_def)
  finally show ?thesis
    by (simp add: dec_value_def scaled_def)
qed

lemma dec_eq_value: "dec_eq a b \<longleftrightarrow> dec_value a = dec_value b"
proof -
  define e where "e = min (d_exp a) (d_exp b)"
  have "dec_value a = of_int (scaled a e) * 10 powi e" "dec_value b = of_int (scaled b e) * 10 powi e"
    by (simp_all add: dec_value_scaled e_def)
  moreover have "(10::rat) powi e \<noteq> 0" by simp
  ultimately show ?thesis
    by (simp add: dec_eq_def e_def [symmetric])
qed

lemma dec_lt_value: "dec_lt a b \<longleftrightarrow> dec_value a < dec_value b"
proof -
  define e where "e = min (d_exp a) (d_exp b)"
  have "dec_value a = of_int (scaled a e) * 10 powi e" "dec_value b = of_int (scaled b e) * 10 powi e"
    by (simp_all add: dec_value_scaled e_def)
  moreover have "(10::rat) powi e > 0" by simp
  ultimately show ?thesis
    by (simp add: dec_lt_def e_def [symmetric])
qed

lemma dec_gt_value: "dec_gt a b \<longleftrightarrow> dec_value b < dec_value a"
  by (simp add: dec_gt_def dec_lt_value [symmetric] dec_lt_def min.commute)

lemma dec_value_eq_0: "dec_value d = 0 \<longleftrightarrow> d_int d = 0"
  by (simp add: dec_value_def)


lemma dec_ge_value: "dec_ge a b \<longleftrightarrow> dec_value b \<le> dec_value a"
proof -
  define e where "e = min (d_exp a) (d_exp b)"
  have "dec_value a = of_int (scaled a e) * 10 powi e" "dec_value b = of_int (scaled b e) * 10 powi e"
    by (simp_all add: dec_value_scaled e_def)
  moreover have "(10::rat) powi e > 0" by simp
  ultimately show ?thesis
    by (simp add: dec_ge_def e_def [symmetric])
qed

section \<open>The hash of a Decimal depends on its value only\<close>

text \<open>
  \<open>10 * 10^(-1) = 1\<close> modulo \<open>2^61 - 1\<close>, so that moving a factor 10 between the
  coefficient and the exponent leaves the hash unchanged.
\<close>

lemma inv10: "10 * PyHASH_10INV mod PyHASH_MODULUS = 1"
  by (simp add: PyHASH_10INV_def PyHASH_MODULUS_def)

lemma exp_hash_step: "10 * exp_hash e mod PyHASH_MODULUS = exp_hash (e + 1)"
proof (cases "0 \<le> e")
  case True
  then have "nat (e + 1) = Suc (nat e)" by simp
  with True show ?thesis
    by (simp add: exp_hash_def mod_mult_right_eq)
next
  case False
  define n where "n = nat (- (e + 1))"
  have n: "nat (- e) = Suc n" "nat (- (e + 1)) = n"
    using False by (simp_all add: n_def)
  have "10 * (PyHASH_10INV ^ Suc n mod PyHASH_MODULUS) mod PyHASH_MODULUS =
        (10 * PyHASH_10INV) * PyHASH_10INV ^ n mod PyHASH_MODULUS"
    by (simp add: mod_mult_right_eq mult.assoc)
  also have "\<dots> = (10 * PyHASH_10INV mod PyHASH_MODULUS) * PyHASH_10INV ^ n mod PyHASH_MODULUS"
    by (simp add: mod_mult_left_eq)
  also have "\<dots> = PyHASH_10INV ^ n mod PyHASH_MODULUS"
    by (simp add: inv10)
  finally have step: "10 * (PyHASH_10INV ^ Suc n mod PyHASH_MODULUS) mod PyHASH_MODULUS =
      PyHASH_10INV ^ n mod PyHASH_MODULUS" .
  show ?thesis
  proof (cases "e + 1 = 0")
    case True
    then have "n = 0" using n by simp
    with step n True show ?thesis
      using False by (simp add: exp_hash_def)
  next
    case nz: False
    with False have "\<not> 0 \<le> e + 1" by simp
    with step n False show ?thesis
      by (simp add: exp_hash_def)
  qed
qed

lemma exp_hash_shift: "10 ^ k * exp_hash e mod PyHASH_MODULUS = exp_hash (e + int k)"
proof (induction k)
  case 0
  show ?case by (simp add: exp_hash_def)
next
  case (Suc k)
  have "10 ^ Suc k * exp_hash e mod PyHASH_MODULUS =
        10 * (10 ^ k * exp_hash e mod PyHASH_MODULUS) mod PyHASH_MODULUS"
    by (simp add: mod_mult_right_eq mult.assoc)
  also have "\<dots> = exp_hash (e + int k + 1)"
    by (simp only: Suc.IH exp_hash_step)
  also have "e + int k + 1 = e + int (Suc k)"
    by simp
  finally show ?case .
qed

lemma coeff_hash_scaled:
  assumes "e \<le> d_exp d"
  shows "int (d_int d) * exp_hash (d_exp d) mod PyHASH_MODULUS =
         \<bar>scaled d e\<bar> * exp_hash e mod PyHASH_MODULUS"
proof -
  define k where "k = nat (d_exp d - e)"
  have e: "d_exp d = e + int k" using assms by (simp add: k_def)
  have "\<bar>scaled d e\<bar> = int (d_int d) * 10 ^ k"
    by (simp add: scaled_def k_def abs_mult)
  then have "\<bar>scaled d e\<bar> * exp_hash e mod PyHASH_MODULUS =
      int (d_int d) * (10 ^ k * exp_hash e mod PyHASH_MODULUS) mod PyHASH_MODULUS"
    by (simp add: mod_mult_right_eq mult.assoc)
  then show ?thesis
    by (simp add: exp_hash_shift e)
qed

lemma dec_hash_alt:
  "dec_hash d =
     (let h = int (d_int d) * exp_hash (d_exp d) mod PyHASH_MODULUS;
          ans = (if 0 \<le> dec_value d then h else - h)
      in if ans = - 1 then - 2 else ans)"
  by (simp add: dec_hash_def Let_def dec_ge_value dec_value_def)

lemma dec_hash_cong:
  assumes "dec_eq a b"
  shows "dec_hash a = dec_hash b"
proof -
  define e where "e = min (d_exp a) (d_exp b)"
  have sc: "scaled a e = scaled b e"
    using assms by (simp add: dec_eq_def e_def Let_def)
  have "int (d_int a) * exp_hash (d_exp a) mod PyHASH_MODULUS =
        int (d_int b) * exp_hash (d_exp b) mod PyHASH_MODULUS"
    using coeff_hash_scaled [of e a] coeff_hash_scaled [of e b] sc
    by (simp add: e_def)
  moreover have "dec_value a = dec_value b"
    using assms by (simp add: dec_eq_value)
  ultimately show ?thesis
    by (simp add: dec_hash_alt)
qed

section \<open>Counting digits\<close>

lemma ndigits_pos: "0 < ndigits n"
  by (subst ndigits.simps) simp

lemma ndigits_le_iff: "0 < k \<Longrightarrow> ndigits n \<le> k \<longleftrightarrow> n < 10 ^ k"
proof (induction n arbitrary: k rule: ndigits.induct)
  case (1 n)
  show ?case
  proof (cases "n < 10")
    case True
    have "(10::nat) ^ 1 \<le> 10 ^ k"
      using "1.prems" by (intro power_increasing) simp_all
    with True have "n < 10 ^ k" by simp
    moreover have "ndigits n = 1"
      using True by (subst ndigits.simps) simp
    ultimately show ?thesis using "1.prems" by simp
  next
    case False
    have nd: "ndigits n = Suc (ndigits (n div 10))"
      using False by (subst ndigits.simps) simp
    show ?thesis
    proof (cases k)
      case 0
      with "1.prems" show ?thesis by simp
    next
      case (Suc j)
      show ?thesis
      proof (cases "j = 0")
        case True
        with Suc False nd ndigits_pos [of "n div 10"] show ?thesis by simp
      next
        case jpos: False
        then have "ndigits (n div 10) \<le> j \<longleftrightarrow> n div 10 < 10 ^ j"
          using "1.IH" [OF False, of j] by simp
        moreover have "n div 10 < 10 ^ j \<longleftrightarrow> n < 10 ^ Suc j"
          by (simp add: div_less_iff_less_mult mult.commute)
        ultimately show ?thesis
          using nd Suc by simp
      qed
    qed
  qed
qed

lemma ndigits_mono: "m \<le> n \<Longrightarrow> ndigits m \<le> ndigits n"
proof -
  assume mn: "m \<le> n"
  have "n < 10 ^ ndigits n"
    using ndigits_le_iff [of "ndigits n" n] ndigits_pos [of n] by simp
  with mn have "m < 10 ^ ndigits n" by simp
  then show ?thesis
    using ndigits_le_iff [of "ndigits n" m] ndigits_pos [of n] by simp
qed

lemma ndigits_times_10: "0 < c \<Longrightarrow> ndigits (c * 10) = Suc (ndigits c)"
  by (subst ndigits.simps) simp

lemma ndigits_pad: "0 < c \<Longrightarrow> ndigits (c * 10 ^ k) = ndigits c + k"
proof (induction k)
  case 0
  show ?case by simp
next
  case (Suc k)
  have "c * 10 ^ Suc k = (c * 10 ^ k) * 10"
    by simp
  then have "ndigits (c * 10 ^ Suc k) = ndigits ((c * 10 ^ k) * 10)"
    by (rule arg_cong)
  also have "\<dots> = Suc (ndigits (c * 10 ^ k))"
    using Suc.prems by (intro ndigits_times_10) simp
  finally show ?case using Suc by simp
qed

lemma ndigits_lower: "0 < n \<Longrightarrow> 10 ^ (ndigits n - 1) \<le> n"
proof (induction n rule: ndigits.induct)
  case (1 n)
  show ?case
  proof (cases "n < 10")
    case True
    then have "ndigits n = 1" by (subst ndigits.simps) simp
    with "1.prems" show ?thesis by simp
  next
    case False
    have nd: "ndigits n = Suc (ndigits (n div 10))"
      using False by (subst ndigits.simps) simp
    have "0 < n div 10" using False by simp
    from "1.IH" [OF False this] have "10 ^ (ndigits (n div 10) - 1) \<le> n div 10" .
    then have "10 * 10 ^ (ndigits (n div 10) - 1) \<le> 10 * (n div 10)" by simp
    also have "\<dots> \<le> n" by simp
    finally show ?thesis
      using nd ndigits_pos [of "n div 10"]
      by (cases "ndigits (n div 10)") simp_all
  qed
qed


section \<open>Rounding half-even\<close>

lemma round_half_even_bounds:
  "c div 10 ^ k \<le> round_half_even c k \<and> round_half_even c k \<le> c div 10 ^ k + 1"
  by (simp add: round_half_even_def Let_def)

lemma round_half_even_near:
  assumes "0 < k"
  shows "2 * \<bar>int (round_half_even c k) * 10 ^ k - int c\<bar> \<le> 10 ^ k \<and>
         (2 * \<bar>int (round_half_even c k) * 10 ^ k - int c\<bar> = 10 ^ k \<longrightarrow> even (round_half_even c k))"
proof -
  define q where "q = c div 10 ^ k"
  define r where "r = c mod 10 ^ k"
  define h :: nat where "h = 5 * 10 ^ (k - 1)"
  have "c = q * 10 ^ k + r"
    using div_mult_mod_eq [of c "10 ^ k"] by (simp add: q_def r_def)
  then have "int c = int (q * 10 ^ k + r)"
    by (rule arg_cong)
  then have c: "int c = int q * 10 ^ k + int r"
    by simp
  have "r < 10 ^ k"
    unfolding r_def by simp
  then have "int r < int (10 ^ k)"
    by (simp only: of_nat_less_iff)
  then have r: "int r < 10 ^ k"
    by simp
  have "(10::nat) ^ k = 2 * h"
    using assms unfolding h_def by (cases k) simp_all
  then have "int (10 ^ k) = int (2 * h)"
    by (rule arg_cong)
  then have h: "(10::int) ^ k = 2 * int h"
    by simp
  show ?thesis
  proof (cases "h < r \<or> (r = h \<and> odd q)")
    case True
    then have rhe: "round_half_even c k = q + 1"
      using assms by (simp add: round_half_even_def q_def r_def h_def Let_def)
    have d: "int (q + 1) * 10 ^ k - int c = 10 ^ k - int r"
      by (simp add: c algebra_simps)
    have a: "\<bar>10 ^ k - int r\<bar> = 2 * int h - int r"
      using r unfolding h by simp
    have e: "2 * \<bar>int (q + 1) * 10 ^ k - int c\<bar> = 2 * (2 * int h - int r)"
      by (simp only: d a)
    from True have hr: "int h \<le> int r" by auto
    have le: "2 * (2 * int h - int r) \<le> 10 ^ k"
      unfolding h using hr by simp
    have ev: "even (q + 1)" if "2 * (2 * int h - int r) = 10 ^ k"
    proof -
      from that have "int r = int h" unfolding h by simp
      then have "r = h" by simp
      with True show ?thesis by simp
    qed
    show ?thesis
      unfolding rhe e using le ev by blast
  next
    case False
    then have rhe: "round_half_even c k = q"
      using assms by (simp add: round_half_even_def q_def r_def h_def Let_def)
    have d: "int q * 10 ^ k - int c = - int r"
      by (simp add: c)
    have e: "2 * \<bar>int q * 10 ^ k - int c\<bar> = 2 * int r"
      by (simp only: d abs_minus_cancel abs_of_nat)
    from False have hr: "int r \<le> int h" by auto
    have le: "2 * int r \<le> 10 ^ k"
      unfolding h using hr by simp
    have ev: "even q" if "2 * int r = 10 ^ k"
    proof -
      from that have "int r = int h" unfolding h by simp
      then have "r = h" by simp
      with False show ?thesis by simp
    qed
    show ?thesis
      unfolding rhe e using le ev by blast
  qed
qed


lemma ndigits_div_lower:
  assumes "k < ndigits c"
  shows "ndigits c - k \<le> ndigits (c div 10 ^ k)"
proof (cases "ndigits c - k \<le> 1")
  case True
  with ndigits_pos [of "c div 10 ^ k"] show ?thesis by simp
next
  case False
  define j where "j = ndigits c - k - 1"
  have j: "0 < j" "ndigits c - 1 = j + k" "ndigits c - k = Suc j"
    using False by (simp_all add: j_def)
  have "0 < c"
  proof (rule ccontr)
    assume "\<not> 0 < c"
    then have "ndigits c = 1" by (subst ndigits.simps) simp
    with False show False by simp
  qed
  then have "10 ^ (j + k) \<le> c"
    using ndigits_lower [of c] j by simp
  then have "10 ^ j * 10 ^ k \<le> c"
    by (simp add: power_add)
  then have "10 ^ j \<le> c div 10 ^ k"
    by (simp add: less_eq_div_iff_mult_less_eq)
  then have "\<not> c div 10 ^ k < 10 ^ j"
    by simp
  then have "\<not> ndigits (c div 10 ^ k) \<le> j"
    using ndigits_le_iff [OF j(1), of "c div 10 ^ k"] by simp
  with j show ?thesis by simp
qed

lemma rescale_digits_lower:
  assumes "d_int d \<noteq> 0"
  shows "int (ndigits (d_int d)) + d_exp d - e \<le> int (ndigits (d_int (rescale d e)))"
proof (cases "e \<le> d_exp d")
  case True
  then have "d_int (rescale d e) = d_int d * 10 ^ nat (d_exp d - e)"
    using assms by (simp add: rescale_def)
  then have "ndigits (d_int (rescale d e)) = ndigits (d_int d) + nat (d_exp d - e)"
    using assms by (simp add: ndigits_pad)
  with True show ?thesis by simp
next
  case False
  define k where "k = nat (e - d_exp d)"
  have k: "int k = e - d_exp d" using False by (simp add: k_def)
  have r: "d_int (rescale d e) = round_half_even (d_int d) k"
    using assms False by (simp add: rescale_def k_def)
  show ?thesis
  proof (cases "k < ndigits (d_int d)")
    case True
    have "ndigits (d_int d) - k \<le> ndigits (d_int d div 10 ^ k)"
      using True by (rule ndigits_div_lower)
    also have "\<dots> \<le> ndigits (round_half_even (d_int d) k)"
      using round_half_even_bounds [of "d_int d" k] by (intro ndigits_mono) simp
    finally show ?thesis
      using True k r by simp
  next
    case nk: False
    with k show ?thesis by simp
  qed
qed

lemma rescale_adjusted:
  assumes "d_int d \<noteq> 0"
  shows "adjusted (rescale d e) \<le> max (adjusted d + 1) e"
proof (cases "e \<le> d_exp d")
  case True
  then have "d_int (rescale d e) = d_int d * 10 ^ nat (d_exp d - e)" "d_exp (rescale d e) = e"
    using assms by (simp_all add: rescale_def)
  then have "adjusted (rescale d e) = adjusted d"
    using assms True by (simp add: adjusted_def ndigits_pad)
  then show ?thesis by simp
next
  case False
  define k where "k = nat (e - d_exp d)"
  define n where "n = ndigits (d_int d)"
  have k: "int k = e - d_exp d" "0 < k" using False by (simp_all add: k_def)
  have r: "d_int (rescale d e) = round_half_even (d_int d) k" "d_exp (rescale d e) = e"
    using assms False by (simp_all add: rescale_def k_def)
  have c: "d_int d < 10 ^ n"
    using ndigits_le_iff [of n "d_int d"] ndigits_pos [of "d_int d"] by (simp add: n_def)
  show ?thesis
  proof (cases "k < n")
    case True
    define j where "j = n - k"
    have j: "n = j + k" "0 < j" using True by (simp_all add: j_def)
    have "d_int d < 10 ^ j * 10 ^ k"
      using c by (simp add: j power_add)
    then have "d_int d div 10 ^ k < 10 ^ j"
      by (simp add: div_less_iff_less_mult)
    then have "round_half_even (d_int d) k \<le> 10 ^ j"
      using round_half_even_bounds [of "d_int d" k] by simp
    also have "(10::nat) ^ j < 10 ^ Suc j"
      by simp
    finally have "ndigits (round_half_even (d_int d) k) \<le> Suc j"
      using ndigits_le_iff [of "Suc j" "round_half_even (d_int d) k"] by simp
    then have "adjusted (rescale d e) \<le> e + int j"
      by (simp add: adjusted_def r)
    also have "\<dots> = adjusted d + 1"
      using k j by (simp add: adjusted_def n_def [symmetric])
    finally show ?thesis by simp
  next
    case nk: False
    then have "(10::nat) ^ n \<le> 10 ^ k"
      by (intro power_increasing) simp_all
    with c have "d_int d < 10 ^ k"
      by (rule less_le_trans)
    then have "d_int d div 10 ^ k = 0"
      by (rule div_less)
    then have "round_half_even (d_int d) k \<le> 1"
      using round_half_even_bounds [of "d_int d" k] by simp
    then have "ndigits (round_half_even (d_int d) k) \<le> ndigits 1"
      by (rule ndigits_mono)
    also have "ndigits 1 = 1"
      by (subst ndigits.simps) simp
    finally have "adjusted (rescale d e) \<le> e"
      by (simp add: adjusted_def r)
    then show ?thesis by simp
  qed
qed

lemma rescale_sign_exp: "d_sign (rescale d e) = d_sign d \<and> d_exp (rescale d e) = e"
  by (simp add: rescale_def)

lemma rescale_value:
  "2 * \<bar>dec_value (rescale d e) - dec_value d\<bar> \<le> 10 powi e \<and>
   (2 * \<bar>dec_value (rescale d e) - dec_value d\<bar> = 10 powi e \<longrightarrow> even (d_int (rescale d e)))"
proof (cases "d_int d = 0 \<or> e \<le> d_exp d")
  case True
  have "dec_value (rescale d e) = dec_value d"
  proof (cases "d_int d = 0")
    case True
    then show ?thesis by (simp add: rescale_def dec_value_def)
  next
    case False
    with True have le: "e \<le> d_exp d" by simp
    have "(10::rat) powi (d_exp d) = 10 powi ((d_exp d - e) + e)"
      by simp
    also have "\<dots> = 10 powi (d_exp d - e) * 10 powi e"
      by (rule power_int_add) simp
    also have "(10::rat) powi (d_exp d - e) = 10 ^ nat (d_exp d - e)"
      using le by (simp add: power_int_def)
    finally show ?thesis
      using False le by (simp add: rescale_def dec_value_def)
  qed
  moreover have "(0::rat) < 10 powi e" by simp
  ultimately show ?thesis by simp
next
  case False
  define k where "k = nat (e - d_exp d)"
  define q where "q = round_half_even (d_int d) k"
  define sg :: rat where "sg = (if d_sign d then - 1 else 1)"
  have k: "e = d_exp d + int k" "0 < k" using False by (simp_all add: k_def)
  have r: "rescale d e = Decimal (d_sign d) q e"
    using False by (simp add: rescale_def k_def q_def)
  have p: "(10::rat) powi e = 10 ^ k * 10 powi (d_exp d)"
    unfolding k(1) by (subst power_int_add) (simp_all add: mult.commute)
  have "dec_value (rescale d e) - dec_value d =
        sg * (of_nat q * 10 ^ k - of_nat (d_int d)) * 10 powi (d_exp d)"
    by (simp add: r dec_value_def p sg_def algebra_simps)
  also have "of_nat q * 10 ^ k - of_nat (d_int d) = (of_int (int q * 10 ^ k - int (d_int d)) :: rat)"
    by simp
  finally have "\<bar>dec_value (rescale d e) - dec_value d\<bar> =
      of_int \<bar>int q * 10 ^ k - int (d_int d)\<bar> * 10 powi (d_exp d)"
    by (simp add: abs_mult sg_def)
  then have diff: "2 * \<bar>dec_value (rescale d e) - dec_value d\<bar> =
      of_int (2 * \<bar>int q * 10 ^ k - int (d_int d)\<bar>) * 10 powi (d_exp d)"
    by simp
  have p': "(10::rat) powi e = of_int (10 ^ k) * 10 powi (d_exp d)"
    by (simp add: p)
  have pos: "(0::rat) < 10 powi (d_exp d)" by simp
  from round_half_even_near [OF k(2), of "d_int d"]
  have near: "2 * \<bar>int q * 10 ^ k - int (d_int d)\<bar> \<le> 10 ^ k"
    and tie: "2 * \<bar>int q * 10 ^ k - int (d_int d)\<bar> = 10 ^ k \<longrightarrow> even q"
    by (simp_all add: q_def)
  have le: "2 * \<bar>dec_value (rescale d e) - dec_value d\<bar> \<le> 10 powi e"
    unfolding diff p' using near pos
    by (simp only: mult_le_cancel_right_pos of_int_le_iff)
  have ev: "even (d_int (rescale d e))"
    if "2 * \<bar>dec_value (rescale d e) - dec_value d\<bar> = 10 powi e"
  proof -
    from that have "(of_int (2 * \<bar>int q * 10 ^ k - int (d_int d)\<bar>) :: rat) * 10 powi (d_exp d) =
        of_int (10 ^ k) * 10 powi (d_exp d)"
      by (simp only: diff p')
    with pos have "(of_int (2 * \<bar>int q * 10 ^ k - int (d_int d)\<bar>) :: rat) = of_int (10 ^ k)"
      by (simp only: mult_cancel_right) simp
    then have "2 * \<bar>int q * 10 ^ k - int (d_int d)\<bar> = 10 ^ k"
      by (simp only: of_int_eq_iff)
    with tie show ?thesis by (simp add: r)
  qed
  from le ev show ?thesis by blast
qed

section \<open>Addition\<close>



section \<open>Comparisons\<close>

text \<open>
  Claim C10. For every Money \<open>m\<close> and every value \<open>v\<close> that is not a Money, \<open>m == v\<close> is
  \<open>False\<close> and \<open>m != v\<close> is \<open>True\<close>; neither raises: \<open>money_eq\<close> and \<open>money_ne\<close> have no
  error result at all, where the ordering operators below do.
\<close>

theorem money_eq_non_money:
  "\<not> is_Money v \<Longrightarrow> money_eq m v = False \<and> money_ne m v = True"
  by (cases v) (simp_all add: money_ne_def)

theorem money_eq_non_money_witness:
  "\<not> is_Money (PInt 5) \<and>
   money_eq \<lparr>amount = Decimal False 5 0, currency = USD\<rparr> (PInt 5) = False \<and>
   money_ne \<lparr>amount = Decimal False 5 0, currency = USD\<rparr> (PInt 5) = True"
  using money_eq_non_money [of "PInt 5" "\<lparr>amount = Decimal False 5 0, currency = USD\<rparr>"]
  by simp

text \<open>
  Claim C5. For each of \<open><\<close>, \<open><=\<close>, \<open>>\<close>, \<open>>=\<close>: against an operand \<open>v\<close> that is not a Money
  the comparison raises \<open>MoneyComparisonError\<close>, which carries \<open>v\<close>; against a Money of a
  different currency code it raises the \<open>TypeError\<close> of mismatched currencies
  (CurrencyMismatch); against a Money of the same currency code it returns the order of
  the two amounts as numbers.
\<close>

theorem money_ordering:
  "(\<not> is_Money v \<longrightarrow>
      money_lt a v = Inl (MoneyComparisonError v) \<and> money_le a v = Inl (MoneyComparisonError v) \<and>
      money_gt a v = Inl (MoneyComparisonError v) \<and> money_ge a v = Inl (MoneyComparisonError v)) \<and>
   (code (currency c) \<noteq> code (currency a) \<longrightarrow>
      money_lt a (PMoney c) = Inl (TypeError ''Cannot compare Money with different currencies.'') \<and>
      money_le a (PMoney c) = Inl (TypeError ''Cannot compare Money with different currencies.'') \<and>
      money_gt a (PMoney c) = Inl (TypeError ''Cannot compare Money with different currencies.'') \<and>
      money_ge a (PMoney c) = Inl (TypeError ''Cannot compare Money with different currencies.'')) \<and>
   (code (currency b) = code (currency a) \<longrightarrow>
      money_lt a (PMoney b) = Inr (dec_value (amount a) < dec_value (amount b)) \<and>
      money_le a (PMoney b) = Inr (dec_value (amount a) \<le> dec_value (amount b)) \<and>
      money_gt a (PMoney b) = Inr (dec_value (amount a) > dec_value (amount b)) \<and>
      money_ge a (PMoney b) = Inr (dec_value (amount a) \<ge> dec_value (amount b)))"
proof -
  have non: "\<not> is_Money v \<Longrightarrow> money_lt a v = Inl (MoneyComparisonError v) \<and> money_gt a v = Inl (MoneyComparisonError v)"
    by (cases v) (simp_all add: money_lt_def money_gt_def)
  have mis: "code (currency c) \<noteq> code (currency a) \<Longrightarrow>
      money_lt a (PMoney c) = Inl (TypeError ''Cannot compare Money with different currencies.'') \<and>
      money_gt a (PMoney c) = Inl (TypeError ''Cannot compare Money with different currencies.'')"
    by (auto simp: money_lt_def money_gt_def currency_eq_def)
  have same: "code (currency b) = code (currency a) \<Longrightarrow>
      money_lt a (PMoney b) = Inr (dec_value (amount a) < dec_value (amount b)) \<and>
      money_gt a (PMoney b) = Inr (dec_value (amount a) > dec_value (amount b))"
    by (simp add: money_lt_def money_gt_def currency_eq_def dec_lt_value dec_gt_value)
  show ?thesis
    using non mis same
    by (auto simp: money_le_def money_ge_def currency_eq_def dec_eq_value)
qed

theorem money_ordering_witness:
  "money_lt \<lparr>amount = Decimal False 1 0, currency = USD\<rparr> (PInt 5) = Inl (MoneyComparisonError (PInt 5)) \<and>
   money_ge \<lparr>amount = Decimal False 1 0, currency = USD\<rparr> (PInt 5) = Inl (MoneyComparisonError (PInt 5)) \<and>
   money_lt \<lparr>amount = Decimal False 1 0, currency = USD\<rparr> (PMoney \<lparr>amount = Decimal False 1 0, currency = EUR\<rparr>) =
     Inl (TypeError ''Cannot compare Money with different currencies.'') \<and>
   money_le \<lparr>amount = Decimal False 1 0, currency = USD\<rparr> (PMoney \<lparr>amount = Decimal False 1 0, currency = EUR\<rparr>) =
     Inl (TypeError ''Cannot compare Money with different currencies.'') \<and>
   money_lt \<lparr>amount = Decimal False 1 0, currency = USD\<rparr> (PMoney \<lparr>amount = Decimal False 25 (- 1), currency = USD\<rparr>) = Inr True \<and>
   money_le \<lparr>amount = Decimal False 1 0, currency = USD\<rparr> (PMoney \<lparr>amount = Decimal False 25 (- 1), currency = USD\<rparr>) = Inr True \<and>
   money_gt \<lparr>amount = Decimal False 1 0, currency = USD\<rparr> (PMoney \<lparr>amount = Decimal False 25 (- 1), currency = USD\<rparr>) = Inr False \<and>
   money_ge \<lparr>amount = Decimal False 1 0, currency = USD\<rparr> (PMoney \<lparr>amount = Decimal False 25 (- 1), currency = USD\<rparr>) = Inr False"
  using money_ordering [of "PInt 5" "\<lparr>amount = Decimal False 1 0, currency = USD\<rparr>"
      "\<lparr>amount = Decimal False 1 0, currency = EUR\<rparr>"
      "\<lparr>amount = Decimal False 25 (- 1), currency = USD\<rparr>"]
  by (simp add: USD_def EUR_def dec_value_def power_int_def)

section \<open>The registry\<close>

text \<open>
  What a sequence of registrations leaves under a key is the last currency registered
  with it, so a lookup in the registry of the module is a search of its table.
\<close>

lemma CURRENCIES_register_all:
  "CURRENCIES (register_all tbl reg) k = last_by_code k tbl (CURRENCIES reg k)"
  unfolding register_all_def
  by (induction tbl arbitrary: reg) (auto simp: add_currency_def Let_def)

lemma CURRENCIES_BY_ISO_register_all:
  "CURRENCIES_BY_ISO (register_all tbl reg) k = last_by_numeric k tbl (CURRENCIES_BY_ISO reg k)"
  unfolding register_all_def
  by (induction tbl arbitrary: reg) (auto simp: add_currency_def Let_def)

lemma registry_USD: "CURRENCIES the_registry ''USD'' = Some USD"
  unfolding the_registry_def CURRENCIES_register_all
  by (simp add: currency_table_def empty_registry_def USD_def)

lemma registry_EUR: "CURRENCIES the_registry ''EUR'' = Some EUR"
  unfolding the_registry_def CURRENCIES_register_all
  by (simp add: currency_table_def empty_registry_def EUR_def)

lemma registry_840: "CURRENCIES_BY_ISO the_registry (Some ''840'') = Some USD"
  unfolding the_registry_def CURRENCIES_BY_ISO_register_all
  by (simp add: currency_table_def empty_registry_def USD_def)

lemma registry_ZZZ: "CURRENCIES the_registry ''ZZZ'' = None"
  unfolding the_registry_def CURRENCIES_register_all
  by (simp add: currency_table_def empty_registry_def)

lemma registry_000: "CURRENCIES_BY_ISO the_registry (Some ''000'') = None"
  unfolding the_registry_def CURRENCIES_BY_ISO_register_all
  by (simp add: currency_table_def empty_registry_def)

lemma last_by_code_key:
  "last_by_code k tbl acc = Some c \<Longrightarrow> acc = Some c \<or> code c = k"
proof (induction tbl arbitrary: acc)
  case Nil
  then show ?case by simp
next
  case (Cons x tbl)
  obtain c' n' where x: "x = (c', n')" by (cases x)
  from Cons.prems have "last_by_code k tbl (if c' = k then Some \<lparr>code = c', numeric = n'\<rparr> else acc) = Some c"
    by (simp add: x)
  from Cons.IH [OF this] show ?case
    by (auto split: if_splits)
qed

text \<open>Every currency that a registry holds is found again under its own code.\<close>

lemma get_currency_registered:
  assumes "CURRENCIES (register_all tbl empty_registry) k = Some c"
  shows "get_currency (register_all tbl empty_registry) (Some (code c)) None = Inr c"
proof -
  have "code c = k"
    using assms last_by_code_key [of k tbl None c]
    by (simp add: CURRENCIES_register_all empty_registry_def)
  with assms show ?thesis
    by (simp add: get_currency_def)
qed


lemma get_currency_840: "get_currency the_registry None (Some ''840'') = Inr USD"
  by (simp add: get_currency_def registry_840)

text \<open>
  Claim C9. A lookup by an absent code raises \<open>CurrencyDoesNotExist\<close> built from the
  queried code. A lookup by an absent numeric raises \<open>CurrencyDoesNotExist\<close> too, but built
  from the \<open>code\<close> argument, which such a call leaves at \<open>None\<close>: the queried numeric
  \<open>'000'\<close> is not in the error. The code differs from the claim here; the lookups that
  succeed behave as claimed (\<open>get_currency_registered\<close>, \<open>get_currency_840\<close>).
\<close>

theorem get_currency_absent:
  "get_currency the_registry (Some ''ZZZ'') None = Inl (CurrencyDoesNotExist (Some ''ZZZ'')) \<and>
   get_currency the_registry None (Some ''000'') = Inl (CurrencyDoesNotExist None)"
  by (simp add: get_currency_def registry_ZZZ registry_000)

section \<open>Equality and hashing\<close>

text \<open>
  Claim C8. Two Money values are equal exactly when their amounts are the same number and
  their currency codes are the same; \<open>Money(0, 'USD')\<close> and \<open>Money(0, 'EUR')\<close>, built by the
  constructor from the registry, are not equal; and two equal Money values have the same
  hash, whatever the hash of strings and of tuples is.
\<close>

theorem money_eq_hash:
  "(money_eq a (PMoney b) \<longleftrightarrow>
      dec_value (amount a) = dec_value (amount b) \<and> code (currency a) = code (currency b)) \<and>
   Money_init the_registry (PInt 0) (CurrencyCode ''USD'') = Inr \<lparr>amount = Decimal False 0 0, currency = USD\<rparr> \<and>
   Money_init the_registry (PInt 0) (CurrencyCode ''EUR'') = Inr \<lparr>amount = Decimal False 0 0, currency = EUR\<rparr> \<and>
   money_eq \<lparr>amount = Decimal False 0 0, currency = USD\<rparr>
     (PMoney \<lparr>amount = Decimal False 0 0, currency = EUR\<rparr>) = False \<and>
   money_ne \<lparr>amount = Decimal False 0 0, currency = USD\<rparr>
     (PMoney \<lparr>amount = Decimal False 0 0, currency = EUR\<rparr>) = True \<and>
   (money_eq a (PMoney b) \<longrightarrow> money_hash hash_str hash_tuple a = money_hash hash_str hash_tuple b)"
proof -
  have init: "Money_init the_registry (PInt 0) (CurrencyCode ''USD'') = Inr \<lparr>amount = Decimal False 0 0, currency = USD\<rparr>"
    "Money_init the_registry (PInt 0) (CurrencyCode ''EUR'') = Inr \<lparr>amount = Decimal False 0 0, currency = EUR\<rparr>"
    by (simp_all add: Money_init_def upper_def upper_char_def get_currency_def registry_USD registry_EUR)
  have ne: "money_eq \<lparr>amount = Decimal False 0 0, currency = USD\<rparr>
     (PMoney \<lparr>amount = Decimal False 0 0, currency = EUR\<rparr>) = False"
    by (simp add: currency_eq_def USD_def EUR_def)
  have hash: "money_hash hash_str hash_tuple a = money_hash hash_str hash_tuple b"
    if "money_eq a (PMoney b)"
    using that dec_hash_cong [of "amount a" "amount b"]
    by (simp add: money_hash_def currency_hash_def currency_eq_def)
  show ?thesis
    using init ne hash
    by (simp add: money_ne_def currency_eq_def dec_eq_value)
qed

text \<open>\<open>1.0 USD\<close> and \<open>1.00 USD\<close> are equal and hash alike.\<close>

theorem money_eq_hash_witness:
  "money_eq \<lparr>amount = Decimal False 10 (- 1), currency = USD\<rparr>
     (PMoney \<lparr>amount = Decimal False 100 (- 2), currency = \<lparr>code = ''USD'', numeric = None\<rparr>\<rparr>) \<and>
   money_hash (\<lambda>s. int (length s)) sum_list \<lparr>amount = Decimal False 10 (- 1), currency = USD\<rparr> = 4 \<and>
   money_hash (\<lambda>s. int (length s)) sum_list
     \<lparr>amount = Decimal False 100 (- 2), currency = \<lparr>code = ''USD'', numeric = None\<rparr>\<rparr> = 4"
proof -
  have eq: "money_eq \<lparr>amount = Decimal False 10 (- 1), currency = USD\<rparr>
     (PMoney \<lparr>amount = Decimal False 100 (- 2), currency = \<lparr>code = ''USD'', numeric = None\<rparr>\<rparr>)"
    by (simp add: currency_eq_def USD_def dec_eq_def scaled_def)
  have h: "money_hash (\<lambda>s. int (length s)) sum_list \<lparr>amount = Decimal False 10 (- 1), currency = USD\<rparr> = 4"
    by (simp add: money_hash_def currency_hash_def USD_def dec_hash_def exp_hash_def dec_ge_def scaled_def
        PyHASH_MODULUS_def PyHASH_10INV_def)
  show ?thesis
    using eq h money_eq_hash [of "\<lparr>amount = Decimal False 10 (- 1), currency = USD\<rparr>"
        "\<lparr>amount = Decimal False 100 (- 2), currency = \<lparr>code = ''USD'', numeric = None\<rparr>\<rparr>"
        "\<lambda>s. int (length s)" sum_list]
    by simp
qed

section \<open>Division\<close>





section \<open>Rounding\<close>

text \<open>
  \<open>quantize\<close> returns the rescaled decimal when that has at most 28 digits, and refuses
  with \<open>InvalidOperation\<close> when it has more.
\<close>

lemma quantize_returns:
  assumes "Etiny \<le> e" "e \<le> Emax" "adjusted d < Emax" "ndigits (d_int (rescale d e)) \<le> prec"
  shows "(quantize d e :: pyval error + decimal) = Inr (rescale d e)"
proof (cases "d_int d = 0")
  case True
  with assms(1,2) show ?thesis
    by (simp add: quantize_def rescale_def)
next
  case False
  have pre: "adjusted d - e + 1 \<le> int prec"
    using rescale_digits_lower [OF False, of e] assms(4) by (simp add: adjusted_def)
  have post: "adjusted (rescale d e) \<le> Emax"
    using rescale_adjusted [OF False, of e] assms(2,3) by simp
  from False assms pre post show ?thesis
    by (simp add: quantize_def Let_def)
qed

lemma quantize_refuses:
  assumes "d_int d \<noteq> 0" "prec < ndigits (d_int (rescale d e))"
  shows "(quantize d e :: pyval error + decimal) = Inl InvalidOperation"
  using assms by (simp add: quantize_def Let_def)

text \<open>
  Claim C7, as stated, fails where the rounded amount needs more than 28 digits:
  \<open>Money(1, 'USD').round(28)\<close> would be \<open>1.\<close> followed by 28 zeros, 29 digits, and raises
  \<open>InvalidOperation\<close>.
\<close>

theorem money_round_counterexample:
  "money_round \<lparr>amount = Decimal False 1 0, currency = USD\<rparr> (Some 28) = Inl InvalidOperation"
  by (simp add: money_round_def quantize_def adjusted_def ndigits.simps prec_def Etiny_def Emin_def Emax_def)

text \<open>
  Claim C7, amended. For a Money \<open>m\<close> and an int \<open>nd\<close> with \<open>-nd\<close> in the exponent range of
  the context, an amount below \<open>10^Emax\<close>, and a rounded coefficient of at most 28 digits,
  \<open>m.round(nd)\<close> returns a Money of the same currency whose amount has the exponent
  \<open>-nd\<close> and the sign of \<open>m.amount\<close>, lies within half a unit \<open>10^(-nd)\<close> of \<open>m.amount\<close>, and
  has an even coefficient when it lies exactly half a unit away (half-even); \<open>nd\<close> may be
  negative. When the rounded coefficient of an amount that is not zero has more than 28
  digits, \<open>m.round(nd)\<close> raises \<open>InvalidOperation\<close>. \<open>round()\<close> and \<open>round(None)\<close> are
  \<open>round(0)\<close>. The amount \<open>1.005\<close> rounds to \<open>1.00\<close> at two digits.
\<close>

theorem money_round_half_even:
  "(Etiny \<le> - nd \<and> - nd \<le> Emax \<and> adjusted (amount m) < Emax \<and>
    ndigits (d_int (rescale (amount m) (- nd))) \<le> prec \<longrightarrow>
      (\<exists>q. money_round m (Some nd) = Inr \<lparr>amount = q, currency = currency m\<rparr> \<and>
           d_exp q = - nd \<and> d_sign q = d_sign (amount m) \<and>
           2 * \<bar>dec_value q - dec_value (amount m)\<bar> \<le> 10 powi (- nd) \<and>
           (2 * \<bar>dec_value q - dec_value (amount m)\<bar> = 10 powi (- nd) \<longrightarrow> even (d_int q)))) \<and>
   (dec_value (amount m) \<noteq> 0 \<and> prec < ndigits (d_int (rescale (amount m) (- nd))) \<longrightarrow>
      money_round m (Some nd) = Inl InvalidOperation) \<and>
   money_round m None = money_round m (Some 0) \<and>
   money_round \<lparr>amount = Decimal False 1005 (- 3), currency = USD\<rparr> (Some 2) =
     Inr \<lparr>amount = Decimal False 100 (- 2), currency = USD\<rparr>"
proof -
  have ok: "\<exists>q. money_round m (Some nd) = Inr \<lparr>amount = q, currency = currency m\<rparr> \<and>
           d_exp q = - nd \<and> d_sign q = d_sign (amount m) \<and>
           2 * \<bar>dec_value q - dec_value (amount m)\<bar> \<le> 10 powi (- nd) \<and>
           (2 * \<bar>dec_value q - dec_value (amount m)\<bar> = 10 powi (- nd) \<longrightarrow> even (d_int q))"
    if "Etiny \<le> - nd" "- nd \<le> Emax" "adjusted (amount m) < Emax"
       "ndigits (d_int (rescale (amount m) (- nd))) \<le> prec"
  proof -
    have "money_round m (Some nd) = Inr \<lparr>amount = rescale (amount m) (- nd), currency = currency m\<rparr>"
      using quantize_returns [OF that] by (simp add: money_round_def)
    with rescale_sign_exp [of "amount m" "- nd"] rescale_value [of "amount m" "- nd"]
    show ?thesis by blast
  qed
  have refuse: "money_round m (Some nd) = Inl InvalidOperation"
    if "dec_value (amount m) \<noteq> 0" "prec < ndigits (d_int (rescale (amount m) (- nd)))"
    using that quantize_refuses [of "amount m" "- nd"]
    by (simp add: money_round_def dec_value_eq_0)
  have dflt: "money_round m None = money_round m (Some 0)"
    by (simp add: money_round_def)
  have ex: "money_round \<lparr>amount = Decimal False 1005 (- 3), currency = USD\<rparr> (Some 2) =
     Inr \<lparr>amount = Decimal False 100 (- 2), currency = USD\<rparr>"
    by (simp add: money_round_def quantize_def adjusted_def ndigits.simps prec_def Etiny_def Emin_def
        Emax_def rescale_def round_half_even_def)
  from ok refuse dflt ex show ?thesis by blast
qed

text \<open>\<open>1.015 USD\<close> at two digits, and \<open>1 USD\<close> at 28 digits.\<close>

theorem money_round_half_even_witness:
  "(\<exists>q. money_round \<lparr>amount = Decimal False 1015 (- 3), currency = USD\<rparr> (Some 2) =
          Inr \<lparr>amount = q, currency = USD\<rparr> \<and>
        d_exp q = - 2 \<and>
        2 * \<bar>dec_value q - dec_value (Decimal False 1015 (- 3))\<bar> \<le> 10 powi (- 2)) \<and>
   money_round \<lparr>amount = Decimal False 1 0, currency = USD\<rparr> (Some 28) = Inl InvalidOperation"
proof -
  note th1 = money_round_half_even
    [of 2 "\<lparr>amount = Decimal False 1015 (- 3), currency = USD\<rparr>", unfolded money.select_convs]
  note th2 = money_round_half_even
    [of 28 "\<lparr>amount = Decimal False 1 0, currency = USD\<rparr>", unfolded money.select_convs]
  have h1: "Etiny \<le> - 2 \<and> - 2 \<le> Emax \<and> adjusted (Decimal False 1015 (- 3)) < Emax \<and>
      ndigits (d_int (rescale (Decimal False 1015 (- 3)) (- 2))) \<le> prec"
    by (simp add: Etiny_def Emin_def Emax_def prec_def adjusted_def rescale_def round_half_even_def
        ndigits.simps)
  have h2: "dec_value (Decimal False 1 0) \<noteq> 0 \<and>
      prec < ndigits (d_int (rescale (Decimal False 1 0) (- 28)))"
    by (simp add: dec_value_def prec_def rescale_def ndigits.simps)
  from th1 h1 have c1: "\<exists>q. money_round \<lparr>amount = Decimal False 1015 (- 3), currency = USD\<rparr> (Some 2) =
          Inr \<lparr>amount = q, currency = USD\<rparr> \<and>
        d_exp q = - 2 \<and> d_sign q = False \<and>
        2 * \<bar>dec_value q - dec_value (Decimal False 1015 (- 3))\<bar> \<le> 10 powi (- 2) \<and>
        (2 * \<bar>dec_value q - dec_value (Decimal False 1015 (- 3))\<bar> = 10 powi (- 2) \<longrightarrow> even (d_int q))"
    by simp
  from th2 h2 have c2: "money_round \<lparr>amount = Decimal False 1 0, currency = USD\<rparr> (Some 28) = Inl InvalidOperation"
    by simp
  from c1 c2 show ?thesis by blast
qed

section \<open>Multiplying and dividing back\<close>







section \<open>Adding and subtracting back\<close>











section \<open>The percentage of an amount\<close>









end
